theory Spec2Isabelle
  imports Complex_Main
begin

section \<open>The AST model (model/interface.go, model/types.go)\<close>

text \<open>
  Every ordered child sequence of the Go model (\<^verbatim>\<open>DefinitionList\<close>,
  \<^verbatim>\<open>SelectionList\<close>, \<^verbatim>\<open>DirectiveList\<close>, ...) is a HOL list.
\<close>

text \<open>
  Modelled from the spec: the list types and their methods \<^verbatim>\<open>Add\<close> and
  \<^verbatim>\<open>Iterator\<close> are not in the source; model/types.go only calls them
  (\<^verbatim>\<open>t.fields.Add(list...)\<close>, \<^verbatim>\<open>t.fields.Iterator()\<close>). The spec has
  a container as append-only (\<open>Add\<close>), and its iterator as a pre-filled channel that
  yields a snapshot of the children in insertion order, each exactly once
  (\<open>Iterator\<close>: the content of the channel, first to last). An accessor such as
  \<^verbatim>\<open>v.Selections()\<close> is \<open>Iterator\<close> of the stored list; over such a channel,
  \<^verbatim>\<open>for x := range ch\<close> is a loop over the list and \<^verbatim>\<open>len(ch)\<close> is its
  length.
\<close>

definition Add :: "'a list \<Rightarrow> 'a list \<Rightarrow> 'a list" where
  "Add l xs = l @ xs"

definition Iterator :: "'a list \<Rightarrow> 'a list" where
  "Iterator l = l"

datatype Type =
    NamedType (nullable: bool) (type_name: string)
  | ListType (nullable: bool) (elem_type: Type)

datatype Value =
    Variable string
  | IntValue int
  | FloatValue real
  | StringValue string
  | BoolValue bool
  | NullValue
  | EnumValue string
  | ObjectValue "(string \<times> Value) list"

record Argument =
  arg_name :: string
  arg_value :: Value

record Directive =
  dir_name :: string
  dir_arguments :: "Argument list"

record VariableDefinition =
  var_name :: string
  var_typ :: Type
  var_defaultValue :: "Value option"

record FragmentSpread =
  fs_name :: string
  fs_directives :: "Directive list"

text \<open>
  \<^verbatim>\<open>type Selection interface{}\<close>: a selection is a field, a fragment spread, an
  inline fragment, or a value of any other Go type (\<open>SelOther\<close> carries what
  \<^verbatim>\<open>%T\<close> prints for it).
\<close>

datatype Selection =
    SelField SelectionField
  | SelSpread FragmentSpread
  | SelInline InlineFragment
  | SelOther string
and SelectionField =
    SelectionField (sf_name: string) (sf_alias: "string option")
      (sf_arguments: "Argument list") (sf_directives: "Directive list")
      (sf_selections: "Selection list")
and InlineFragment =
    InlineFragment (if_directives: "Directive list") (if_selections: "Selection list")
      (if_typ: "Type option")

type_synonym OperationType = string

definition OperationTypeQuery :: OperationType where
  "OperationTypeQuery = ''query''"

definition OperationTypeMutation :: OperationType where
  "OperationTypeMutation = ''mutation''"

record OperationDefinition =
  op_typ :: OperationType
  op_hasName :: bool
  op_name :: string
  op_variables :: "VariableDefinition list"
  op_directives :: "Directive list"
  op_selections :: "Selection list"

record FragmentDefinition =
  fd_name :: string
  fd_typ :: Type
  fd_directives :: "Directive list"
  fd_selections :: "Selection list"

record ObjectFieldArgumentDefinition =
  ofa_name :: string
  ofa_typ :: Type
  ofa_defaultValue :: "Value option"

record ObjectFieldDefinition =
  ofd_name :: string
  ofd_typ :: Type
  ofd_arguments :: "ObjectFieldArgumentDefinition list"

record ObjectDefinition =
  od_nullable :: bool
  od_name :: string
  od_fields :: "ObjectFieldDefinition list"
  od_hasImplements :: bool
  od_implements :: "Type option"

record EnumElementDefinition =
  ee_name :: string
  ee_value :: Value

record EnumDefinition =
  ed_nullable :: bool
  ed_name :: string
  ed_elements :: "EnumElementDefinition list"

record InterfaceFieldDefinition =
  ifd_name :: string
  ifd_typ :: Type

record InterfaceDefinition =
  id_nullable :: bool
  id_name :: string
  id_fields :: "InterfaceFieldDefinition list"

record UnionDefinition =
  ud_name :: string
  ud_types :: "Type list"

record InputFieldDefinition =
  ipf_name :: string
  ipf_typ :: "Type option"

record InputDefinition =
  ipd_name :: string
  ipd_fields :: "InputFieldDefinition list"

text \<open>
  \<^verbatim>\<open>type Definition interface{}\<close>: the seven kinds the visitor's type switch knows,
  and \<open>DefOther\<close> for a value of any other type (with its \<^verbatim>\<open>%T\<close>), the
  \<^verbatim>\<open>default\<close> branch of the switch.
\<close>

datatype Definition =
    DefOperation OperationDefinition
  | DefFragment FragmentDefinition
  | DefObject ObjectDefinition
  | DefInterface InterfaceDefinition
  | DefEnum EnumDefinition
  | DefUnion UnionDefinition
  | DefInput InputDefinition
  | DefOther string

record Document =
  definitions :: "Definition list"
  doc_types :: "Type list"

text \<open>
  \<^verbatim>\<open>Schema.query\<close> is the zero value (nil) until \<^verbatim>\<open>SetQuery\<close> is called.
\<close>

record Schema =
  query :: "ObjectDefinition option"
  types :: "ObjectDefinition list"

text \<open>The argument \<^verbatim>\<open>v interface{}\<close> of the entry point.\<close>

datatype Root =
    RootDocument Document
  | RootSchema Schema
  | RootOther string

section \<open>Errors (github.com/pkg/errors as the visitor uses it)\<close>

text \<open>
  An error value is one that implements \<^verbatim>\<open>Pruner\<close> (\<open>PruneErr b\<close>, where
  \<open>b\<close> is what its \<^verbatim>\<open>Prune()\<close> returns), any other error made of a message,
  or an error wrapped by \<^verbatim>\<open>errors.Wrap\<close>. The wrapper type of
  \<^verbatim>\<open>errors.Wrap\<close> has no \<^verbatim>\<open>Prune\<close> method, so a wrapped error is never
  a \<^verbatim>\<open>Pruner\<close>.
\<close>

datatype error =
    PruneErr bool
  | Errorf string
  | Wrap error string

fun isPruneError :: "error \<Rightarrow> bool option" where
  "isPruneError (PruneErr b) = Some b"
| "isPruneError _ = None"

fun Cause :: "error \<Rightarrow> error" where
  "Cause (Wrap e msg) = Cause e"
| "Cause e = e"

section \<open>The callback table (visitor.Handler)\<close>

text \<open>
  \<^verbatim>\<open>Handler\<close> is a struct of 48 optional functions. It is modelled as a finite map
  from the field's name to the function stored there; \<open>None\<close> is a nil field.
\<close>

datatype hook =
    EnterSchema | LeaveSchema
  | EnterDocument
  | EnterDefinitionList | LeaveDefinitionList
  | EnterDefinition
  | EnterDirectiveList
  | EnterDirective
  | EnterOperationDefinition
  | EnterFragmentDefinition
  | EnterObjectDefinition
  | EnterObjectFieldDefinitionList | LeaveObjectFieldDefinitionList
  | EnterObjectFieldDefinition
  | EnterInterfaceDefinition
  | EnterInterfaceFieldDefinition
  | EnterEnumDefinition
  | EnterUnionDefinition
  | EnterInputDefinition
  | EnterInputFieldDefinitionList
  | EnterInputFieldDefinition
  | EnterSelectionList
  | EnterSelection
  | EnterSelectionField
  | EnterFragmentSpread
  | EnterInlineFragment
  | EnterSchemaQuery | LeaveSchemaQuery
  | LeaveDocument
  | LeaveDefinition
  | LeaveDirectiveList
  | LeaveDirective
  | LeaveOperationDefinition
  | LeaveFragmentDefinition
  | LeaveObjectDefinition
  | LeaveObjectFieldDefinition
  | LeaveInterfaceDefinition
  | LeaveInterfaceFieldDefinition
  | LeaveEnumDefinition
  | LeaveUnionDefinition
  | LeaveInputDefinition
  | LeaveInputFieldDefinitionList
  | LeaveInputFieldDefinition
  | LeaveSelectionList
  | LeaveSelection
  | LeaveSelectionField
  | LeaveFragmentSpread
  | LeaveInlineFragment

text \<open>
  What a callback is handed besides the context: the node, or nothing for the list
  callbacks (\<open>NoNode\<close>).
\<close>

datatype node =
    NoNode
  | NSchema Schema
  | NDocument Document
  | NDefinition Definition
  | NDirective Directive
  | NOperationDefinition OperationDefinition
  | NFragmentDefinition FragmentDefinition
  | NObjectDefinition ObjectDefinition
  | NObjectFieldDefinition ObjectFieldDefinition
  | NInterfaceDefinition InterfaceDefinition
  | NInterfaceFieldDefinition InterfaceFieldDefinition
  | NEnumDefinition EnumDefinition
  | NUnionDefinition UnionDefinition
  | NInputDefinition InputDefinition
  | NInputFieldDefinition InputFieldDefinition
  | NSelection Selection
  | NSelectionField SelectionField
  | NFragmentSpread FragmentSpread
  | NInlineFragment InlineFragment

text \<open>
  A callback may change state of its caller's; \<open>'u\<close> is that state. The walk also keeps
  a trace: one event per callback invocation, with the callback's result.
\<close>

type_synonym 'u callback = "node \<Rightarrow> 'u \<Rightarrow> error option \<times> 'u"

type_synonym 'u Handler = "hook \<Rightarrow> 'u callback option"

type_synonym event = "hook \<times> node \<times> error option"

type_synonym 'u walk = "event list \<times> 'u"

type_synonym 'u visit = "'u walk \<Rightarrow> error option \<times> 'u walk"

definition ev_hook :: "event \<Rightarrow> hook" where
  "ev_hook e = fst e"

definition ev_node :: "event \<Rightarrow> node" where
  "ev_node e = fst (snd e)"

definition ev_result :: "event \<Rightarrow> error option" where
  "ev_result e = snd (snd e)"

section \<open>The statement forms of the visitor\<close>

text \<open>\<^verbatim>\<open>return nil\<close>.\<close>

definition ret_nil :: "'u visit" where
  "ret_nil s = (None, s)"

text \<open>\<^verbatim>\<open>return err\<close>.\<close>

definition ret_err :: "error \<Rightarrow> 'u visit" where
  "ret_err err s = (Some err, s)"

text \<open>
  \<^verbatim>\<open>if hfunc := h.K; hfunc != nil { err := hfunc(ctx, v) ... }\<close>: the call itself,
  giving \<open>err\<close>; a nil field gives no call and no error.
\<close>

definition call :: "'u Handler \<Rightarrow> hook \<Rightarrow> node \<Rightarrow> 'u visit" where
  "call h k n s =
     (case h k of
        None \<Rightarrow> (None, s)
      | Some hfunc \<Rightarrow>
          (case hfunc n (snd s) of (r, u') \<Rightarrow> (r, (fst s @ [(k, n, r)], u'))))"

text \<open>\<^verbatim>\<open>if err := m; err != nil { return errors.Wrap(err, msg) }\<close>.\<close>

definition wrap :: "string \<Rightarrow> 'u visit \<Rightarrow> 'u visit" where
  "wrap msg m s =
     (case m s of
        (None, s') \<Rightarrow> (None, s')
      | (Some err, s') \<Rightarrow> (Some (Wrap err msg), s'))"

text \<open>
  The step of a callback that does not look for a prune signal:
  \<^verbatim>\<open>
  if hfunc := h.K; hfunc != nil {
    if err := hfunc(ctx, v); err != nil { return errors.Wrap(err, msg) }
  }
  \<close>
\<close>

definition invoke :: "'u Handler \<Rightarrow> hook \<Rightarrow> node \<Rightarrow> string \<Rightarrow> 'u visit" where
  "invoke h k n msg = wrap msg (call h k n)"

text \<open>Two statements in a row: the second runs when the first did not return.\<close>

definition seq :: "'u visit \<Rightarrow> 'u visit \<Rightarrow> 'u visit" where
  "seq m1 m2 s =
     (case m1 s of
        (None, s') \<Rightarrow> m2 s'
      | (Some err, s') \<Rightarrow> (Some err, s'))"

text \<open>\<^verbatim>\<open>for x := range ch { if err := f(x); err != nil { return err } }\<close>.\<close>

primrec forEach :: "('a \<Rightarrow> 'u visit) \<Rightarrow> 'a list \<Rightarrow> 'u visit" where
  "forEach f [] = ret_nil"
| "forEach f (x # xs) = seq (f x) (forEach f xs)"

text \<open>
  The enter step of a node that honours pruning:
  \<^verbatim>\<open>
  var prune bool
  if hfunc := h.K; hfunc != nil {
    if err := hfunc(ctx, v); err != nil {
      if perr, ok := isPruneError(err); ok { prune = perr.Prune() }
      else { return errors.Wrap(err, msg) }
    }
  }
  \<close>
  \<open>Inr prune\<close> goes on with the flag, \<open>Inl err\<close> returns.
\<close>

definition enter :: "'u Handler \<Rightarrow> hook \<Rightarrow> node \<Rightarrow> string \<Rightarrow> 'u walk \<Rightarrow> (error + bool) \<times> 'u walk" where
  "enter h k n msg s =
     (case call h k n s of
        (None, s') \<Rightarrow> (Inr False, s')
      | (Some err, s') \<Rightarrow>
          (case isPruneError err of
             Some p \<Rightarrow> (Inr p, s')
           | None \<Rightarrow> (Inl (Wrap err msg), s')))"

definition with_prune :: "('u walk \<Rightarrow> (error + bool) \<times> 'u walk) \<Rightarrow> (bool \<Rightarrow> 'u visit) \<Rightarrow> 'u visit" where
  "with_prune m f s =
     (case m s of
        (Inl err, s') \<Rightarrow> (Some err, s')
      | (Inr prune, s') \<Rightarrow> f prune s')"

text \<open>\<^verbatim>\<open>if !prune { m }\<close>.\<close>

definition unless :: "bool \<Rightarrow> 'u visit \<Rightarrow> 'u visit" where
  "unless prune m = (if \<not> prune then m else ret_nil)"

lemma forEach_cong [fundef_cong]:
  "xs = ys \<Longrightarrow> (\<And>x. x \<in> set ys \<Longrightarrow> f x = g x) \<Longrightarrow> forEach f xs = forEach g ys"
  by (induction ys arbitrary: xs) auto

section \<open>The visitor (visitor/visitor.go)\<close>

definition visitDirective :: "'u Handler \<Rightarrow> Directive \<Rightarrow> 'u visit" where
  "visitDirective h v =
     seq (invoke h EnterDirective (NDirective v) ''failed to visit directive (enter)'')
         (invoke h LeaveDirective (NDirective v) ''failed to visit directive (leave)'')"

definition visitDirectiveList :: "'u Handler \<Rightarrow> Directive list \<Rightarrow> 'u visit" where
  "visitDirectiveList h ch =
     (if length ch = 0 then ret_nil
      else
        seq (invoke h EnterDirectiveList NoNode ''failed to visit directive list (enter)'')
       (seq (forEach (\<lambda>dir. wrap ''failed to visit directive'' (visitDirective h dir)) ch)
            (invoke h LeaveDirectiveList NoNode ''failed to visit directive list (leave)'')))"

definition visitFragmentSpread :: "'u Handler \<Rightarrow> FragmentSpread \<Rightarrow> 'u visit" where
  "visitFragmentSpread h v =
     seq (invoke h EnterFragmentSpread (NFragmentSpread v)
            ''failed to visit fragment spread (enter)'')
         (invoke h LeaveFragmentSpread (NFragmentSpread v)
            ''failed to visit fragment spread (leave)'')"

function visitSelectionList :: "'u Handler \<Rightarrow> Selection list \<Rightarrow> 'u visit"
  and visitSelection :: "'u Handler \<Rightarrow> Selection \<Rightarrow> 'u visit"
  and visitSelectionField :: "'u Handler \<Rightarrow> SelectionField \<Rightarrow> 'u visit"
  and visitInlineFragment :: "'u Handler \<Rightarrow> InlineFragment \<Rightarrow> 'u visit"
where
  "visitSelectionList h ch =
     (if length ch = 0 then ret_nil
      else
        seq (invoke h EnterSelectionList NoNode ''failed to handle selection list (enter)'')
       (seq (forEach (\<lambda>sel. wrap ''failed to visit selection'' (visitSelection h sel)) ch)
            (invoke h LeaveSelectionList NoNode ''failed to handle selection list (leave)'')))"
| "visitSelection h v =
     with_prune (enter h EnterSelection (NSelection v) ''failed to visit selection (enter)'')
       (\<lambda>prune.
          seq (unless prune
                 (case v of
                    SelField f \<Rightarrow>
                      wrap ''failed to visit selection field'' (visitSelectionField h f)
                  | SelSpread f \<Rightarrow>
                      wrap ''failed to visit fragment spread'' (visitFragmentSpread h f)
                  | SelInline f \<Rightarrow>
                      wrap ''failed to visit inline fragment'' (visitInlineFragment h f)
                  | SelOther t \<Rightarrow>
                      ret_err (Errorf (''invalid selection type '' @ t))))
              (invoke h LeaveSelection (NSelection v) ''failed to visit selection (leave)''))"
| "visitSelectionField h v =
     with_prune
       (enter h EnterSelectionField (NSelectionField v) ''failed to visit selection field (enter)'')
       (\<lambda>prune.
          seq (unless prune
                 (seq (wrap ''failed to visit directive list''
                         (visitDirectiveList h (Iterator (sf_directives v))))
                      (wrap ''failed to visit selection list''
                         (visitSelectionList h (Iterator (sf_selections v))))))
              (invoke h LeaveSelectionField (NSelectionField v)
                 ''failed to visit selection field (leave)''))"
| "visitInlineFragment h v =
     with_prune
       (enter h EnterInlineFragment (NInlineFragment v) ''failed to visit inline fragment (enter)'')
       (\<lambda>prune.
          seq (unless prune
                 (seq (wrap ''failed to visit directive list''
                         (visitDirectiveList h (Iterator (if_directives v))))
                      (wrap ''failed to visit selection list''
                         (visitSelectionList h (Iterator (if_selections v))))))
              (invoke h LeaveInlineFragment (NInlineFragment v)
                 ''failed to visit inline fragment (leave)''))"
  by pat_completeness auto

termination
proof (relation "measure (\<lambda>x. case x of
          Inl (Inl (h, ch)) \<Rightarrow> 2 * size_list size ch + 1
        | Inl (Inr (h, v)) \<Rightarrow> 2 * size v
        | Inr (Inl (h, v)) \<Rightarrow> 2 * size v
        | Inr (Inr (h, v)) \<Rightarrow> 2 * size v)", goal_cases)
  case 1
  show ?case by simp
next
  case (2 h ch sel)
  then show ?case by (simp add: size_list_estimation' less_Suc_eq_le)
next
  case (3 h v f)
  then show ?case by simp
next
  case (4 h v f)
  then show ?case by simp
next
  case (5 h v)
  show ?case by (cases v) (simp add: Iterator_def)
next
  case (6 h v)
  show ?case by (cases v) (simp add: Iterator_def)
qed

declare visitSelectionList.simps [simp del]
declare visitSelection.simps [simp del]
declare visitSelectionField.simps [simp del]
declare visitInlineFragment.simps [simp del]

definition visitFragmentDefinition :: "'u Handler \<Rightarrow> FragmentDefinition \<Rightarrow> 'u visit" where
  "visitFragmentDefinition h v =
     with_prune
       (enter h EnterFragmentDefinition (NFragmentDefinition v)
          ''failed to visit fragment definition (enter)'')
       (\<lambda>prune.
          seq (unless prune
                 (seq (wrap ''failed to visit directive list''
                         (visitDirectiveList h (Iterator (fd_directives v))))
                      (wrap ''failed to visit selection list''
                         (visitSelectionList h (Iterator (fd_selections v))))))
              (invoke h LeaveFragmentDefinition (NFragmentDefinition v)
                 ''failed to visit fragment definition (leave)''))"

definition visitOperationDefinition :: "'u Handler \<Rightarrow> OperationDefinition \<Rightarrow> 'u visit" where
  "visitOperationDefinition h v =
     with_prune
       (enter h EnterOperationDefinition (NOperationDefinition v)
          ''failed to visit operation definition (enter)'')
       (\<lambda>prune.
          seq (unless prune
                 (wrap ''failed to visit selection list''
                    (visitSelectionList h (Iterator (op_selections v)))))
              (invoke h LeaveOperationDefinition (NOperationDefinition v)
                 ''failed to visit operation definition (leave)''))"

definition visitObjectFieldDefinition :: "'u Handler \<Rightarrow> ObjectFieldDefinition \<Rightarrow> 'u visit" where
  "visitObjectFieldDefinition h v =
     seq (invoke h EnterObjectFieldDefinition (NObjectFieldDefinition v)
            ''failed to visit object field definition (enter)'')
         (invoke h LeaveObjectFieldDefinition (NObjectFieldDefinition v)
            ''failed to visit object field definition (leave)'')"

definition visitObjectFieldDefinitionList ::
    "'u Handler \<Rightarrow> ObjectFieldDefinition list \<Rightarrow> 'u visit" where
  "visitObjectFieldDefinitionList h ch =
     (if length ch = 0 then ret_nil
      else
        seq (invoke h EnterObjectFieldDefinitionList NoNode
               ''failed to visit object field definition list (enter)'')
       (seq (forEach
               (\<lambda>field. wrap ''failed to visit object field definition''
                          (visitObjectFieldDefinition h field)) ch)
            (invoke h LeaveObjectFieldDefinitionList NoNode
               ''failed to visit object field definition list (leave)'')))"

definition visitObjectDefinition :: "'u Handler \<Rightarrow> ObjectDefinition \<Rightarrow> 'u visit" where
  "visitObjectDefinition h v =
     with_prune
       (enter h EnterObjectDefinition (NObjectDefinition v)
          ''failed to visit object definition (enter)'')
       (\<lambda>prune.
          seq (unless prune
                 (wrap ''failed to visit object definition list''
                    (visitObjectFieldDefinitionList h (Iterator (od_fields v)))))
              (invoke h LeaveObjectDefinition (NObjectDefinition v)
                 ''failed to visit object definition (leave)''))"

definition visitInterfaceFieldDefinition ::
    "'u Handler \<Rightarrow> InterfaceFieldDefinition \<Rightarrow> 'u visit" where
  "visitInterfaceFieldDefinition h v =
     seq (invoke h EnterInterfaceFieldDefinition (NInterfaceFieldDefinition v)
            ''failed to visit interface field definition (enter)'')
         (invoke h LeaveInterfaceFieldDefinition (NInterfaceFieldDefinition v)
            ''failed to visit interface field definition (leave)'')"

definition visitInterfaceDefinition :: "'u Handler \<Rightarrow> InterfaceDefinition \<Rightarrow> 'u visit" where
  "visitInterfaceDefinition h v =
     with_prune
       (enter h EnterInterfaceDefinition (NInterfaceDefinition v)
          ''failed to visit interface definition (enter)'')
       (\<lambda>prune.
          seq (unless prune
                 (forEach
                    (\<lambda>field. wrap ''failed to visit interface field definition''
                               (visitInterfaceFieldDefinition h field)) (Iterator (id_fields v))))
              (invoke h LeaveInterfaceDefinition (NInterfaceDefinition v)
                 ''failed to visit interface definition (leave)''))"

definition visitEnumDefinition :: "'u Handler \<Rightarrow> EnumDefinition \<Rightarrow> 'u visit" where
  "visitEnumDefinition h v =
     seq (invoke h EnterEnumDefinition (NEnumDefinition v)
            ''failed to visit enum definition (enter)'')
         (invoke h LeaveEnumDefinition (NEnumDefinition v)
            ''failed to visit enum definition (leave)'')"

definition visitUnionDefinition :: "'u Handler \<Rightarrow> UnionDefinition \<Rightarrow> 'u visit" where
  "visitUnionDefinition h v =
     seq (invoke h EnterUnionDefinition (NUnionDefinition v)
            ''failed to visit union definition (enter)'')
         (invoke h LeaveUnionDefinition (NUnionDefinition v)
            ''failed to visit union definition (leave)'')"

definition visitInputFieldDefinition :: "'u Handler \<Rightarrow> InputFieldDefinition \<Rightarrow> 'u visit" where
  "visitInputFieldDefinition h v =
     seq (invoke h EnterInputFieldDefinition (NInputFieldDefinition v)
            ''failed to visit input field definition (enter)'')
         (invoke h LeaveInputFieldDefinition (NInputFieldDefinition v)
            ''failed to visit input field definition (leave)'')"

text \<open>
  As the source has it: no test of \<^verbatim>\<open>len(ch)\<close>, the enter step of a pruning node, and
  \<^verbatim>\<open>h.EnterInputFieldDefinitionList\<close> again after the loop.
\<close>

definition visitInputFieldDefinitionList ::
    "'u Handler \<Rightarrow> InputFieldDefinition list \<Rightarrow> 'u visit" where
  "visitInputFieldDefinitionList h ch =
     with_prune
       (enter h EnterInputFieldDefinitionList NoNode
          ''failed to visit input field definition list (enter)'')
       (\<lambda>prune.
          seq (unless prune
                 (forEach
                    (\<lambda>e. wrap ''failed to visit input field definition''
                           (visitInputFieldDefinition h e)) ch))
              (invoke h EnterInputFieldDefinitionList NoNode
                 ''failed to visit input field definition list (enter)''))"

definition visitInputDefinition :: "'u Handler \<Rightarrow> InputDefinition \<Rightarrow> 'u visit" where
  "visitInputDefinition h v =
     with_prune
       (enter h EnterInputDefinition (NInputDefinition v)
          ''failed to visit input definition (enter)'')
       (\<lambda>prune.
          seq (unless prune
                 (wrap ''failed to visit input field definition list''
                    (visitInputFieldDefinitionList h (Iterator (ipd_fields v)))))
              (invoke h LeaveInputDefinition (NInputDefinition v)
                 ''failed to visit input definition (leave)''))"

definition visitDefinition :: "'u Handler \<Rightarrow> Definition \<Rightarrow> 'u visit" where
  "visitDefinition h v =
     with_prune (enter h EnterDefinition (NDefinition v) ''failed to visit definition (enter)'')
       (\<lambda>prune.
          seq (unless prune
                 (case v of
                    DefOperation d \<Rightarrow>
                      wrap ''failed to visit operation definition'' (visitOperationDefinition h d)
                  | DefFragment d \<Rightarrow>
                      wrap ''failed to visit fragment definition'' (visitFragmentDefinition h d)
                  | DefObject d \<Rightarrow>
                      wrap ''failed to visit object type definition'' (visitObjectDefinition h d)
                  | DefInterface d \<Rightarrow>
                      wrap ''failed to visit object type definition''
                        (visitInterfaceDefinition h d)
                  | DefEnum d \<Rightarrow>
                      wrap ''failed to visit enum definition'' (visitEnumDefinition h d)
                  | DefUnion d \<Rightarrow>
                      wrap ''failed to visit union definition'' (visitUnionDefinition h d)
                  | DefInput d \<Rightarrow>
                      wrap ''failed to visit input definition'' (visitInputDefinition h d)
                  | DefOther t \<Rightarrow>
                      ret_err (Errorf (''unknown definition '' @ t))))
              (invoke h LeaveDefinition (NDefinition v) ''failed to visit definition (leave)''))"

definition visitDefinitionList :: "'u Handler \<Rightarrow> Definition list \<Rightarrow> 'u visit" where
  "visitDefinitionList h ch =
     (if length ch = 0 then ret_nil
      else
        seq (invoke h EnterDefinitionList NoNode ''failed to handle definition list (enter)'')
       (seq (forEach
               (\<lambda>def. wrap ''failed to visit document definition'' (visitDefinition h def)) ch)
            (invoke h LeaveDefinitionList NoNode ''failed to handle definition list (leave)'')))"

definition visitDocument :: "'u Handler \<Rightarrow> Document \<Rightarrow> 'u visit" where
  "visitDocument h v =
     with_prune (enter h EnterDocument (NDocument v) ''failed to visit document (enter)'')
       (\<lambda>prune.
          seq (unless prune
                 (wrap ''failed to visit definition list''
                    (visitDefinitionList h (Iterator (definitions v)))))
              (invoke h LeaveDocument (NDocument v) ''failed to visit document (leave)''))"

text \<open>
  \<^verbatim>\<open>Query()\<close> as a \<^verbatim>\<open>Definition\<close>: the object definition, or nil when no query
  was set, which no case of the type switch in \<^verbatim>\<open>visitDefinition\<close> matches.
\<close>

definition Query :: "Schema \<Rightarrow> Definition" where
  "Query v = (case query v of None \<Rightarrow> DefOther ''<nil>'' | Some q \<Rightarrow> DefObject q)"

text \<open>
  The channel \<^verbatim>\<open>ch\<close> of \<^verbatim>\<open>visitSchema\<close>: every element of
  \<^verbatim>\<open>v.Types()\<close>, then \<^verbatim>\<open>v.Query()\<close>.
\<close>

definition visitSchema :: "'u Handler \<Rightarrow> Schema \<Rightarrow> 'u visit" where
  "visitSchema h v =
     with_prune (enter h EnterSchema (NSchema v) ''failed to visit document (enter)'')
       (\<lambda>prune.
          seq (unless prune
                 (wrap ''failed to visit schema component list''
                    (visitDefinitionList h (map DefObject (Iterator (types v)) @ [Query v]))))
              (invoke h LeaveSchema (NSchema v) ''failed to visit document (leave)''))"

definition visitSchemaQuery :: "'u Handler \<Rightarrow> ObjectDefinition \<Rightarrow> 'u visit" where
  "visitSchemaQuery h v =
     with_prune
       (enter h EnterSchemaQuery (NObjectDefinition v) ''failed to visit schema query (enter)'')
       (\<lambda>prune.
          seq (unless prune
                 (wrap ''failed to visit object definition list''
                    (visitObjectFieldDefinitionList h (Iterator (od_fields v)))))
              (invoke h LeaveSchemaQuery (NObjectDefinition v)
                 ''failed to visit schema query (leave)''))"

fun Visit :: "'u Handler \<Rightarrow> Root \<Rightarrow> 'u visit" where
  "Visit h (RootDocument v) = visitDocument h v"
| "Visit h (RootSchema v) = visitSchema h v"
| "Visit h (RootOther t) = ret_err (Errorf (''invalid input type for visit: '' @ t))"

section \<open>Traces of a walk\<close>

text \<open>
  \<open>emits m R\<close>: from every state, the step \<open>m\<close> only appends events to the trace,
  and \<open>R\<close> holds of the appended events and the returned error.
\<close>

definition emits :: "'u visit \<Rightarrow> (event list \<Rightarrow> error option \<Rightarrow> bool) \<Rightarrow> bool" where
  "emits m R \<longleftrightarrow> (\<forall>tr u. \<exists>new u' r. m (tr, u) = (r, (tr @ new, u')) \<and> R new r)"

text \<open>
  A property \<open>R\<close> of (appended events, returned error) that every statement form of the
  visitor preserves, granted that every callback invocation \<open>(k, n)\<close> that is made
  satisfies \<open>A k n\<close>.
\<close>

definition closed :: "(hook \<Rightarrow> node \<Rightarrow> bool) \<Rightarrow> (event list \<Rightarrow> error option \<Rightarrow> bool) \<Rightarrow> bool" where
  "closed A R \<longleftrightarrow>
     R [] None \<and>
     (\<forall>t. R [] (Some (Errorf t))) \<and>
     (\<forall>k n. A k n \<longrightarrow> R [(k, n, None)] None) \<and>
     (\<forall>k n e msg. A k n \<longrightarrow> R [(k, n, Some e)] (Some (Wrap e msg))) \<and>
     (\<forall>k n b. A k n \<longrightarrow> R [(k, n, Some (PruneErr b))] None) \<and>
     (\<forall>n1 n2 r. R n1 None \<longrightarrow> R n2 r \<longrightarrow> R (n1 @ n2) r) \<and>
     (\<forall>n e msg. R n (Some e) \<longrightarrow> R n (Some (Wrap e msg)))"

definition on :: "hook list \<Rightarrow> node set \<Rightarrow> (hook \<Rightarrow> node \<Rightarrow> bool) \<Rightarrow> bool" where
  "on ks ns A \<longleftrightarrow> (\<forall>k \<in> set ks. \<forall>n \<in> ns. A k n)"

text \<open>The callbacks a selection list can reach, and the nodes it can hand them.\<close>

definition directive_hooks :: "hook list" where
  "directive_hooks = [EnterDirectiveList, LeaveDirectiveList, EnterDirective, LeaveDirective]"

definition selection_hooks :: "hook list" where
  "selection_hooks =
     [EnterSelectionList, LeaveSelectionList, EnterSelection, LeaveSelection,
      EnterSelectionField, LeaveSelectionField, EnterFragmentSpread, LeaveFragmentSpread,
      EnterInlineFragment, LeaveInlineFragment] @ directive_hooks"

primrec selection_nodes :: "Selection \<Rightarrow> node set"
  and field_nodes :: "SelectionField \<Rightarrow> node set"
  and inline_nodes :: "InlineFragment \<Rightarrow> node set"
where
  "selection_nodes (SelField f) = insert (NSelection (SelField f)) (field_nodes f)"
| "selection_nodes (SelSpread f) = {NSelection (SelSpread f), NFragmentSpread f}"
| "selection_nodes (SelInline f) = insert (NSelection (SelInline f)) (inline_nodes f)"
| "selection_nodes (SelOther t) = {NSelection (SelOther t)}"
| "field_nodes (SelectionField name alias args dirs sels) =
     {NSelectionField (SelectionField name alias args dirs sels), NoNode}
       \<union> NDirective ` set dirs \<union> \<Union> (set (map selection_nodes sels))"
| "inline_nodes (InlineFragment dirs sels typ) =
     {NInlineFragment (InlineFragment dirs sels typ), NoNode}
       \<union> NDirective ` set dirs \<union> \<Union> (set (map selection_nodes sels))"

definition list_nodes :: "Selection list \<Rightarrow> node set" where
  "list_nodes ch = insert NoNode (\<Union> (set (map selection_nodes ch)))"

text \<open>Every field of \<^verbatim>\<open>Handler\<close> but the two for the schema query.\<close>

definition walk_hook :: "hook \<Rightarrow> bool" where
  "walk_hook k \<longleftrightarrow> k \<noteq> EnterSchemaQuery \<and> k \<noteq> LeaveSchemaQuery"

text \<open>
  An event whose callback returned an error that is not a \<^verbatim>\<open>Pruner\<close> is the last
  event, and the error returned is that error wrapped at least once.
\<close>

definition aborts_at_fatal :: "event list \<Rightarrow> error option \<Rightarrow> bool" where
  "aborts_at_fatal new r \<longleftrightarrow>
     (\<forall>i < length new. \<forall>e. ev_result (new ! i) = Some e \<longrightarrow> isPruneError e = None \<longrightarrow>
        Suc i = length new \<and> (\<exists>ctx. ctx \<noteq> [] \<and> r = Some (foldl Wrap e ctx)))"

text \<open>
  The callback invocations open to the visit of an operation definition: its own enter
  and leave on the operation, and those of its selection list.
\<close>

definition operation_point :: "OperationDefinition \<Rightarrow> hook \<Rightarrow> node \<Rightarrow> bool" where
  "operation_point v k n \<longleftrightarrow>
     (k = EnterOperationDefinition \<or> k = LeaveOperationDefinition) \<and> n = NOperationDefinition v \<or>
     k \<in> set selection_hooks \<and> n \<in> list_nodes (Iterator (op_selections v))"

text \<open>The visitor of each kind of node.\<close>

fun visitNode :: "'u Handler \<Rightarrow> node \<Rightarrow> 'u visit" where
  "visitNode h NoNode = ret_nil"
| "visitNode h (NSchema v) = visitSchema h v"
| "visitNode h (NDocument v) = visitDocument h v"
| "visitNode h (NDefinition v) = visitDefinition h v"
| "visitNode h (NDirective v) = visitDirective h v"
| "visitNode h (NOperationDefinition v) = visitOperationDefinition h v"
| "visitNode h (NFragmentDefinition v) = visitFragmentDefinition h v"
| "visitNode h (NObjectDefinition v) = visitObjectDefinition h v"
| "visitNode h (NObjectFieldDefinition v) = visitObjectFieldDefinition h v"
| "visitNode h (NInterfaceDefinition v) = visitInterfaceDefinition h v"
| "visitNode h (NInterfaceFieldDefinition v) = visitInterfaceFieldDefinition h v"
| "visitNode h (NEnumDefinition v) = visitEnumDefinition h v"
| "visitNode h (NUnionDefinition v) = visitUnionDefinition h v"
| "visitNode h (NInputDefinition v) = visitInputDefinition h v"
| "visitNode h (NInputFieldDefinition v) = visitInputFieldDefinition h v"
| "visitNode h (NSelection v) = visitSelection h v"
| "visitNode h (NSelectionField v) = visitSelectionField h v"
| "visitNode h (NFragmentSpread v) = visitFragmentSpread h v"
| "visitNode h (NInlineFragment v) = visitInlineFragment h v"

text \<open>
  The kinds of node whose visitor looks for a prune signal in what the enter callback
  returns (\<^verbatim>\<open>isPruneError\<close>), each with its enter callback, its leave callback and
  the message of the leave step. The visitors of the other kinds (Directive,
  FragmentSpread, ObjectFieldDefinition, InterfaceFieldDefinition, EnumDefinition,
  UnionDefinition, InputFieldDefinition) wrap and return any error of the enter callback.
\<close>

fun pruning_node :: "node \<Rightarrow> (hook \<times> hook \<times> string) option" where
  "pruning_node (NSchema v) = Some (EnterSchema, LeaveSchema, ''failed to visit document (leave)'')"
| "pruning_node (NDocument v) =
     Some (EnterDocument, LeaveDocument, ''failed to visit document (leave)'')"
| "pruning_node (NDefinition v) =
     Some (EnterDefinition, LeaveDefinition, ''failed to visit definition (leave)'')"
| "pruning_node (NOperationDefinition v) =
     Some (EnterOperationDefinition, LeaveOperationDefinition,
           ''failed to visit operation definition (leave)'')"
| "pruning_node (NFragmentDefinition v) =
     Some (EnterFragmentDefinition, LeaveFragmentDefinition,
           ''failed to visit fragment definition (leave)'')"
| "pruning_node (NObjectDefinition v) =
     Some (EnterObjectDefinition, LeaveObjectDefinition,
           ''failed to visit object definition (leave)'')"
| "pruning_node (NInterfaceDefinition v) =
     Some (EnterInterfaceDefinition, LeaveInterfaceDefinition,
           ''failed to visit interface definition (leave)'')"
| "pruning_node (NInputDefinition v) =
     Some (EnterInputDefinition, LeaveInputDefinition,
           ''failed to visit input definition (leave)'')"
| "pruning_node (NSelection v) =
     Some (EnterSelection, LeaveSelection, ''failed to visit selection (leave)'')"
| "pruning_node (NSelectionField v) =
     Some (EnterSelectionField, LeaveSelectionField,
           ''failed to visit selection field (leave)'')"
| "pruning_node (NInlineFragment v) =
     Some (EnterInlineFragment, LeaveInlineFragment,
           ''failed to visit inline fragment (leave)'')"
| "pruning_node _ = None"

subsection \<open>The walk of an ordered sequence\<close>






section \<open>Scenarios\<close>

text \<open>Callbacks that only return: nil, or a given error.\<close>

definition returns_nil :: "unit callback" where
  "returns_nil n u = (None, u)"

definition returns_err :: "error \<Rightarrow> unit callback" where
  "returns_err err n u = (Some err, u)"

subsection \<open>A query with a field in a field, walked with logging callbacks\<close>

type_synonym log = "(string \<times> string \<times> string) list"

fun node_name :: "node \<Rightarrow> string" where
  "node_name (NSelectionField f) = sf_name f"
| "node_name (NOperationDefinition d) = op_name d"
| "node_name _ = []"

definition logger :: "string \<Rightarrow> string \<Rightarrow> log callback" where
  "logger dir kind n u = (None, u @ [(dir, kind, node_name n)])"

definition log_handler :: "log Handler" where
  "log_handler = Map.empty
     (EnterOperationDefinition \<mapsto> logger ''enter'' ''OperationDefinition'',
      LeaveOperationDefinition \<mapsto> logger ''leave'' ''OperationDefinition'',
      EnterSelectionList \<mapsto> logger ''enter'' ''SelectionList'',
      LeaveSelectionList \<mapsto> logger ''leave'' ''SelectionList'',
      EnterSelection \<mapsto> logger ''enter'' ''Selection'',
      LeaveSelection \<mapsto> logger ''leave'' ''Selection'',
      EnterSelectionField \<mapsto> logger ''enter'' ''SelectionField'',
      LeaveSelectionField \<mapsto> logger ''leave'' ''SelectionField'')"

definition id_field :: SelectionField where
  "id_field = SelectionField ''id'' None [] [] []"

definition user_field :: SelectionField where
  "user_field = SelectionField ''user'' None [] [] (Add [] [SelField id_field])"

definition user_query :: OperationDefinition where
  "user_query =
     \<lparr>op_typ = OperationTypeQuery, op_hasName = False, op_name = [],
      op_variables = [], op_directives = [],
      op_selections = Add [] [SelField user_field]\<rparr>"

definition user_document :: Document where
  "user_document = \<lparr>definitions = Add [] [DefOperation user_query], doc_types = []\<rparr>"

definition user_log :: log where
  "user_log =
     [(''enter'', ''OperationDefinition'', []),
      (''enter'', ''SelectionList'', []),
      (''enter'', ''Selection'', []),
      (''enter'', ''SelectionField'', ''user''),
      (''enter'', ''SelectionList'', []),
      (''enter'', ''Selection'', []),
      (''enter'', ''SelectionField'', ''id''),
      (''leave'', ''SelectionField'', ''id''),
      (''leave'', ''Selection'', []),
      (''leave'', ''SelectionList'', []),
      (''leave'', ''SelectionField'', ''user''),
      (''leave'', ''Selection'', []),
      (''leave'', ''SelectionList'', []),
      (''leave'', ''OperationDefinition'', [])]"

subsection \<open>Input definitions, walked with both input-field-list callbacks\<close>

definition input_list_handler :: "unit Handler" where
  "input_list_handler = Map.empty
     (EnterInputFieldDefinitionList \<mapsto> returns_nil,
      LeaveInputFieldDefinitionList \<mapsto> returns_nil,
      EnterInputFieldDefinition \<mapsto> returns_nil)"

definition empty_input_document :: Document where
  "empty_input_document =
     \<lparr>definitions = [DefInput \<lparr>ipd_name = ''Filter'', ipd_fields = []\<rparr>],
      doc_types = []\<rparr>"

definition limit_field :: InputFieldDefinition where
  "limit_field = \<lparr>ipf_name = ''limit'', ipf_typ = None\<rparr>"

definition one_input_document :: Document where
  "one_input_document =
     \<lparr>definitions = [DefInput \<lparr>ipd_name = ''Filter'', ipd_fields = [limit_field]\<rparr>],
      doc_types = []\<rparr>"

subsection \<open>A directive whose enter callback returns a prune signal\<close>

definition skip_directive :: Directive where
  "skip_directive = \<lparr>dir_name = ''skip'', dir_arguments = []\<rparr>"

definition skipped_field :: SelectionField where
  "skipped_field = SelectionField ''user'' None [] [skip_directive] []"

definition prune_directive_handler :: "unit Handler" where
  "prune_directive_handler = Map.empty
     (EnterDirective \<mapsto> returns_err (PruneErr True),
      LeaveDirective \<mapsto> returns_nil,
      LeaveSelectionField \<mapsto> returns_nil)"

definition skipped_query :: OperationDefinition where
  "skipped_query =
     \<lparr>op_typ = OperationTypeQuery, op_hasName = False, op_name = [],
      op_variables = [], op_directives = [],
      op_selections = [SelField skipped_field]\<rparr>"

definition skipped_document :: Document where
  "skipped_document = \<lparr>definitions = [DefOperation skipped_query], doc_types = []\<rparr>"

subsection \<open>A field whose enter callback returns a prune signal, or a fatal error\<close>

definition prune_field_handler :: "unit Handler" where
  "prune_field_handler = Map.empty
     (EnterSelectionField \<mapsto> returns_err (PruneErr True),
      LeaveSelectionField \<mapsto> returns_nil,
      EnterSelection \<mapsto> returns_nil)"

definition fatal_handler :: "unit Handler" where
  "fatal_handler = Map.empty
     (EnterOperationDefinition \<mapsto> returns_nil,
      LeaveOperationDefinition \<mapsto> returns_nil,
      EnterSelectionField \<mapsto> returns_err (Errorf ''boom''),
      LeaveSelectionField \<mapsto> returns_nil,
      LeaveSelection \<mapsto> returns_nil)"

subsection \<open>Every callback registered: an operation with a variable, and a schema\<close>

definition every_handler :: "unit Handler" where
  "every_handler k = Some returns_nil"

definition id_variable :: VariableDefinition where
  "id_variable =
     \<lparr>var_name = ''id'', var_typ = NamedType False ''ID'', var_defaultValue = None\<rparr>"

definition variable_query :: OperationDefinition where
  "variable_query =
     \<lparr>op_typ = OperationTypeQuery, op_hasName = True, op_name = ''Q'',
      op_variables = [id_variable], op_directives = [skip_directive],
      op_selections = [SelField id_field]\<rparr>"

definition query_type :: ObjectDefinition where
  "query_type =
     \<lparr>od_nullable = True, od_name = ''Query'', od_fields = [],
      od_hasImplements = False, od_implements = None\<rparr>"

definition name_field :: ObjectFieldDefinition where
  "name_field =
     \<lparr>ofd_name = ''name'', ofd_typ = NamedType True ''String'', ofd_arguments = []\<rparr>"

definition user_type :: ObjectDefinition where
  "user_type =
     \<lparr>od_nullable = True, od_name = ''User'', od_fields = [name_field],
      od_hasImplements = False, od_implements = None\<rparr>"

definition user_schema :: Schema where
  "user_schema = \<lparr>query = Some query_type, types = [user_type]\<rparr>"


section \<open>Evaluating a walk\<close>

lemmas statement_defs =
  ret_nil_def ret_err_def call_def wrap_def invoke_def seq_def enter_def with_prune_def
  unless_def Iterator_def Add_def

lemmas visitor_defs =
  visitDirective_def visitDirectiveList_def visitFragmentSpread_def
  visitSelectionList.simps visitSelection.simps visitSelectionField.simps
  visitInlineFragment.simps visitFragmentDefinition_def visitOperationDefinition_def
  visitObjectFieldDefinition_def visitObjectFieldDefinitionList_def visitObjectDefinition_def
  visitInterfaceFieldDefinition_def visitInterfaceDefinition_def visitEnumDefinition_def
  visitUnionDefinition_def visitInputFieldDefinition_def visitInputFieldDefinitionList_def
  visitInputDefinition_def visitDefinition_def visitDefinitionList_def visitDocument_def
  Query_def visitSchema_def visitSchemaQuery_def

section \<open>Invariants of the statement forms\<close>

lemma emitsI:
  "(\<And>tr u. \<exists>new u' r. m (tr, u) = (r, (tr @ new, u')) \<and> R new r) \<Longrightarrow> emits m R"
  by (simp add: emits_def)

lemma emitsE:
  assumes "emits m R"
  obtains new u' r where "m (tr, u) = (r, (tr @ new, u'))" "R new r"
  using assms unfolding emits_def by blast

lemma emits_ret_nil: "closed A R \<Longrightarrow> emits ret_nil R"
  by (rule emitsI) (simp add: ret_nil_def closed_def)

lemma emits_ret_err: "closed A R \<Longrightarrow> emits (ret_err (Errorf t)) R"
  by (rule emitsI) (simp add: ret_err_def closed_def)

lemma emits_invoke: "closed A R \<Longrightarrow> A k n \<Longrightarrow> emits (invoke h k n msg) R"
  by (rule emitsI)
    (auto simp: invoke_def wrap_def call_def closed_def split: option.splits prod.splits)

lemma emits_wrap:
  assumes "closed A R" "emits m R"
  shows "emits (wrap msg m) R"
proof (rule emitsI)
  fix tr u
  from assms(2) obtain new u' r where m: "m (tr, u) = (r, (tr @ new, u'))" and R: "R new r"
    by (rule emitsE)
  show "\<exists>new u' r. wrap msg m (tr, u) = (r, tr @ new, u') \<and> R new r"
    using m R assms(1) by (cases r) (auto simp: wrap_def closed_def)
qed

lemma emits_seq:
  assumes c: "closed A R" and m1: "emits m1 R" and m2: "emits m2 R"
  shows "emits (seq m1 m2) R"
proof (rule emitsI)
  fix tr u
  from m1 obtain n1 u1 r1 where 1: "m1 (tr, u) = (r1, (tr @ n1, u1))" and R1: "R n1 r1"
    by (rule emitsE)
  from m2 obtain n2 u2 r2 where 2: "m2 (tr @ n1, u1) = (r2, ((tr @ n1) @ n2, u2))"
    and R2: "R n2 r2"
    by (rule emitsE)
  show "\<exists>new u' r. seq m1 m2 (tr, u) = (r, tr @ new, u') \<and> R new r"
  proof (cases r1)
    case None
    with c R1 R2 have "R (n1 @ n2) r2" by (simp add: closed_def)
    with None 1 2 show ?thesis by (auto simp: seq_def)
  next
    case (Some e)
    with 1 R1 show ?thesis by (auto simp: seq_def)
  qed
qed

lemma emits_unless: "closed A R \<Longrightarrow> emits m R \<Longrightarrow> emits (unless p m) R"
  by (simp add: unless_def emits_ret_nil)

lemma emits_forEach:
  assumes "closed A R" "\<And>x. x \<in> set xs \<Longrightarrow> emits (f x) R"
  shows "emits (forEach f xs) R"
  using assms(2)
  by (induction xs) (auto intro: emits_ret_nil emits_seq assms(1))

lemma call_cases:
  obtains (unregistered) "h k = None" "call h k n (tr, u) = (None, (tr, u))"
  | (called) f r u' where "h k = Some f" "f n u = (r, u')"
      "call h k n (tr, u) = (r, (tr @ [(k, n, r)], u'))"
proof (cases "h k")
  case None
  then show ?thesis using unregistered by (simp add: call_def)
next
  case (Some f)
  obtain r u' where "f n u = (r, u')" by (cases "f n u")
  with Some show ?thesis using called by (simp add: call_def)
qed

lemma enter_cases:
  obtains (unregistered) "h k = None" "enter h k n msg (tr, u) = (Inr False, (tr, u))"
  | (ok) f u' where "h k = Some f" "f n u = (None, u')"
      "enter h k n msg (tr, u) = (Inr False, (tr @ [(k, n, None)], u'))"
  | (prune) f b u' where "h k = Some f" "f n u = (Some (PruneErr b), u')"
      "enter h k n msg (tr, u) = (Inr b, (tr @ [(k, n, Some (PruneErr b))], u'))"
  | (fatal) f e u' where "h k = Some f" "f n u = (Some e, u')" "isPruneError e = None"
      "enter h k n msg (tr, u) = (Inl (Wrap e msg), (tr @ [(k, n, Some e)], u'))"
proof (cases h k n tr u rule: call_cases)
  case unregistered
  then show ?thesis using that(1) by (simp add: enter_def)
next
  case (called f r u')
  show ?thesis
  proof (cases r)
    case None
    with called show ?thesis using that(2) by (simp add: enter_def)
  next
    case (Some e)
    show ?thesis
    proof (cases e)
      case (PruneErr b)
      with Some called show ?thesis using that(3) by (simp add: enter_def)
    next
      case (Errorf t)
      with Some called show ?thesis using that(4) [of f e u'] by (simp add: enter_def)
    next
      case (Wrap e' t)
      with Some called show ?thesis using that(4) [of f e u'] by (simp add: enter_def)
    qed
  qed
qed

lemma emits_with_prune:
  assumes c: "closed A R" and k: "A k n" and f: "\<And>p. emits (f p) R"
  shows "emits (with_prune (enter h k n msg) f) R"
proof (rule emitsI)
  fix tr u
  have step: "\<exists>new u' r. with_prune (enter h k n msg) f (tr, u) = (r, tr @ new, u') \<and> R new r"
    if e: "enter h k n msg (tr, u) = (Inr p, (tr @ n1, u1))" and R1: "R n1 None"
    for p n1 u1
  proof -
    from f obtain n2 u2 r2 where 2: "f p (tr @ n1, u1) = (r2, ((tr @ n1) @ n2, u2))"
      and R2: "R n2 r2"
      by (rule emitsE)
    from c R1 R2 have "R (n1 @ n2) r2" by (simp add: closed_def)
    moreover have "with_prune (enter h k n msg) f (tr, u) = (r2, tr @ (n1 @ n2), u2)"
      using e 2 by (simp add: with_prune_def)
    ultimately show ?thesis by blast
  qed
  show "\<exists>new u' r. with_prune (enter h k n msg) f (tr, u) = (r, tr @ new, u') \<and> R new r"
  proof (cases h k n msg tr u rule: enter_cases)
    case unregistered
    have "R [] None" using c by (simp add: closed_def)
    with unregistered(2) show ?thesis using step [of False "[]" u] by simp
  next
    case (ok g u')
    have "R [(k, n, None)] None" using c k by (simp add: closed_def)
    with ok(3) show ?thesis by (rule step)
  next
    case (prune g b u')
    have "R [(k, n, Some (PruneErr b))] None" using c k by (simp add: closed_def)
    with prune(3) show ?thesis by (rule step)
  next
    case (fatal g e u')
    have "R [(k, n, Some e)] (Some (Wrap e msg))" using c k by (simp add: closed_def)
    moreover have "with_prune (enter h k n msg) f (tr, u) = (Some (Wrap e msg), (tr @ [(k, n, Some e)], u'))"
      using fatal(4) by (simp add: with_prune_def)
    ultimately show ?thesis by blast
  qed
qed


lemma on_mono: "on ks ns A \<Longrightarrow> set ks' \<subseteq> set ks \<Longrightarrow> ns' \<subseteq> ns \<Longrightarrow> on ks' ns' A"
  unfolding on_def by blast

lemma onD: "on ks ns A \<Longrightarrow> k \<in> set ks \<Longrightarrow> n \<in> ns \<Longrightarrow> A k n"
  unfolding on_def by blast

lemma emits_visitDirective:
  assumes c: "closed A R" and a: "on directive_hooks {NDirective v} A"
  shows "emits (visitDirective h v) R"
proof -
  have "A EnterDirective (NDirective v)" "A LeaveDirective (NDirective v)"
    using a by (simp_all add: on_def directive_hooks_def)
  then show ?thesis
    unfolding visitDirective_def by (intro emits_seq [OF c] emits_invoke [OF c])
qed

lemma emits_visitDirectiveList:
  assumes c: "closed A R" and a: "on directive_hooks (insert NoNode (NDirective ` set ch)) A"
  shows "emits (visitDirectiveList h ch) R"
proof -
  have "emits (visitDirective h v) R" if "v \<in> set ch" for v
    using that by (intro emits_visitDirective [OF c] on_mono [OF a]) auto
  moreover have "A EnterDirectiveList NoNode" "A LeaveDirectiveList NoNode"
    using a by (simp_all add: on_def directive_hooks_def)
  ultimately show ?thesis
    unfolding visitDirectiveList_def
    by (auto intro!: emits_ret_nil [OF c] emits_seq [OF c] emits_invoke [OF c]
        emits_forEach [OF c] emits_wrap [OF c])
qed

lemma emits_visitFragmentSpread:
  assumes c: "closed A R" and a: "on selection_hooks {NFragmentSpread v} A"
  shows "emits (visitFragmentSpread h v) R"
proof -
  have "A EnterFragmentSpread (NFragmentSpread v)" "A LeaveFragmentSpread (NFragmentSpread v)"
    using a by (simp_all add: on_def selection_hooks_def)
  then show ?thesis
    unfolding visitFragmentSpread_def by (intro emits_seq [OF c] emits_invoke [OF c])
qed

lemma selection_nodes_in_list: "sel \<in> set ch \<Longrightarrow> selection_nodes sel \<subseteq> list_nodes ch"
  by (auto simp: list_nodes_def)

lemma field_nodes_parts:
  "NSelectionField v \<in> field_nodes v"
  "NDirective ` set (sf_directives v) \<subseteq> field_nodes v"
  "list_nodes (sf_selections v) \<subseteq> field_nodes v"
  by (cases v; auto simp: list_nodes_def)+

lemma inline_nodes_parts:
  "NInlineFragment v \<in> inline_nodes v"
  "NDirective ` set (if_directives v) \<subseteq> inline_nodes v"
  "list_nodes (if_selections v) \<subseteq> inline_nodes v"
  by (cases v; auto simp: list_nodes_def)+

lemma NoNode_field: "NoNode \<in> field_nodes v"
  by (cases v) auto

lemma NoNode_inline: "NoNode \<in> inline_nodes v"
  by (cases v) auto

lemma sub_directive_hooks: "set directive_hooks \<subseteq> set selection_hooks"
  by (auto simp: selection_hooks_def)

lemma emits_selections:
  assumes c: "closed A R"
  shows "on selection_hooks (list_nodes ch) A \<Longrightarrow> emits (visitSelectionList h ch) R"
    and "on selection_hooks (selection_nodes sel) A \<Longrightarrow> emits (visitSelection h sel) R"
    and "on selection_hooks (field_nodes fld) A \<Longrightarrow> emits (visitSelectionField h fld) R"
    and "on selection_hooks (inline_nodes frg) A \<Longrightarrow> emits (visitInlineFragment h frg) R"
proof (induction h ch and h sel and h fld and h frg
    rule: visitSelectionList_visitSelection_visitSelectionField_visitInlineFragment.induct)
  case (1 h ch)
  have k: "A EnterSelectionList NoNode" "A LeaveSelectionList NoNode"
    using "1.prems" by (simp_all add: on_def selection_hooks_def list_nodes_def)
  have "emits (visitSelection h sel) R" if "sel \<in> set ch" for sel
  proof -
    from that have ne: "length ch \<noteq> 0" by auto
    have "on selection_hooks (selection_nodes sel) A"
      using "1.prems" selection_nodes_in_list [OF that] by (rule on_mono [OF _ subset_refl])
    then show ?thesis by (rule "1.IH" [OF ne that])
  qed
  with k show ?case
    by (subst visitSelectionList.simps)
      (auto intro!: emits_ret_nil [OF c] emits_seq [OF c] emits_invoke [OF c]
        emits_forEach [OF c] emits_wrap [OF c])
next
  case (2 h v)
  have "NSelection v \<in> selection_nodes v"
    by (cases v) auto
  then have k: "A EnterSelection (NSelection v)" "A LeaveSelection (NSelection v)"
    using "2.prems" by (simp_all add: on_def selection_hooks_def)
  have body: "emits (case v of
       SelField f \<Rightarrow> wrap ''failed to visit selection field'' (visitSelectionField h f)
     | SelSpread f \<Rightarrow> wrap ''failed to visit fragment spread'' (visitFragmentSpread h f)
     | SelInline f \<Rightarrow> wrap ''failed to visit inline fragment'' (visitInlineFragment h f)
     | SelOther t \<Rightarrow> ret_err (Errorf (''invalid selection type '' @ t))) R"
  proof (cases v)
    case (SelField f)
    with "2.prems" have "on selection_hooks (field_nodes f) A"
      by (auto simp: on_def)
    with SelField show ?thesis
      by (simp add: emits_wrap [OF c] "2.IH"(1))
  next
    case (SelSpread f)
    with "2.prems" have "on selection_hooks {NFragmentSpread f} A"
      by (auto simp: on_def)
    with SelSpread show ?thesis
      by (simp add: emits_wrap [OF c] emits_visitFragmentSpread [OF c])
  next
    case (SelInline f)
    with "2.prems" have "on selection_hooks (inline_nodes f) A"
      by (auto simp: on_def)
    with SelInline show ?thesis
      by (simp add: emits_wrap [OF c] "2.IH"(2))
  next
    case (SelOther t)
    then show ?thesis by (simp add: emits_ret_err [OF c])
  qed
  show ?case
    by (subst visitSelection.simps)
      (intro emits_with_prune [OF c] emits_seq [OF c] emits_unless [OF c] emits_invoke [OF c]
        k body)
next
  case (3 h v)
  have k: "A EnterSelectionField (NSelectionField v)" "A LeaveSelectionField (NSelectionField v)"
    using "3.prems" field_nodes_parts(1) [of v]
    by (simp_all add: on_def selection_hooks_def)
  have d: "emits (visitDirectiveList h (Iterator (sf_directives v))) R"
    using field_nodes_parts(2) [of v] NoNode_field [of v] sub_directive_hooks
    by (intro emits_visitDirectiveList [OF c] on_mono [OF "3.prems"])
      (auto simp: Iterator_def)
  have s: "emits (visitSelectionList h (Iterator (sf_selections v))) R"
    using field_nodes_parts(3) [of v]
    by (intro "3.IH" on_mono [OF "3.prems"]) (auto simp: Iterator_def)
  show ?case
    by (subst visitSelectionField.simps)
      (intro emits_with_prune [OF c] emits_seq [OF c] emits_unless [OF c] emits_invoke [OF c]
        emits_wrap [OF c] k d s)
next
  case (4 h v)
  have k: "A EnterInlineFragment (NInlineFragment v)" "A LeaveInlineFragment (NInlineFragment v)"
    using "4.prems" inline_nodes_parts(1) [of v]
    by (simp_all add: on_def selection_hooks_def)
  have d: "emits (visitDirectiveList h (Iterator (if_directives v))) R"
    using inline_nodes_parts(2) [of v] NoNode_inline [of v] sub_directive_hooks
    by (intro emits_visitDirectiveList [OF c] on_mono [OF "4.prems"])
      (auto simp: Iterator_def)
  have s: "emits (visitSelectionList h (Iterator (if_selections v))) R"
    using inline_nodes_parts(3) [of v]
    by (intro "4.IH" on_mono [OF "4.prems"]) (auto simp: Iterator_def)
  show ?case
    by (subst visitInlineFragment.simps)
      (intro emits_with_prune [OF c] emits_seq [OF c] emits_unless [OF c] emits_invoke [OF c]
        emits_wrap [OF c] k d s)
qed

lemma on_walk_hooks:
  assumes "\<And>k n. walk_hook k \<Longrightarrow> A k n"
  shows "on selection_hooks ns A" and "on directive_hooks ns A"
  by (auto simp: on_def selection_hooks_def directive_hooks_def walk_hook_def intro!: assms)

lemma emits_visitOperationDefinition:
  assumes c: "closed A R"
    and k: "A EnterOperationDefinition (NOperationDefinition v)"
      "A LeaveOperationDefinition (NOperationDefinition v)"
    and a: "on selection_hooks (list_nodes (Iterator (op_selections v))) A"
  shows "emits (visitOperationDefinition h v) R"
  unfolding visitOperationDefinition_def
  by (intro emits_with_prune [OF c] emits_seq [OF c] emits_unless [OF c] emits_wrap [OF c]
      emits_invoke [OF c] emits_selections(1) [OF c] k a)

lemma emits_visitFragmentDefinition:
  assumes c: "closed A R" and w: "\<And>k n. walk_hook k \<Longrightarrow> A k n"
  shows "emits (visitFragmentDefinition h v) R"
  unfolding visitFragmentDefinition_def
  by (intro emits_with_prune [OF c] emits_seq [OF c] emits_unless [OF c] emits_wrap [OF c]
      emits_invoke [OF c] emits_selections(1) [OF c] emits_visitDirectiveList [OF c]
      on_walk_hooks [of A, OF w] w)
    (simp_all add: walk_hook_def)

lemma emits_visitObjectFieldDefinitionList:
  assumes c: "closed A R"
    and k: "\<And>n. A EnterObjectFieldDefinitionList n" "\<And>n. A LeaveObjectFieldDefinitionList n"
      "\<And>n. A EnterObjectFieldDefinition n" "\<And>n. A LeaveObjectFieldDefinition n"
  shows "emits (visitObjectFieldDefinitionList h ch) R"
  unfolding visitObjectFieldDefinitionList_def visitObjectFieldDefinition_def
  by (auto intro!: emits_ret_nil [OF c] emits_seq [OF c] emits_wrap [OF c]
      emits_invoke [OF c] emits_forEach [OF c] k)

lemma emits_visitObjectDefinition:
  assumes c: "closed A R" and w: "\<And>k n. walk_hook k \<Longrightarrow> A k n"
  shows "emits (visitObjectDefinition h v) R"
  unfolding visitObjectDefinition_def
  by (intro emits_with_prune [OF c] emits_seq [OF c] emits_unless [OF c] emits_wrap [OF c]
      emits_invoke [OF c] emits_visitObjectFieldDefinitionList [OF c] w)
    (simp_all add: walk_hook_def)

lemma emits_visitInterfaceDefinition:
  assumes c: "closed A R" and w: "\<And>k n. walk_hook k \<Longrightarrow> A k n"
  shows "emits (visitInterfaceDefinition h v) R"
  unfolding visitInterfaceDefinition_def visitInterfaceFieldDefinition_def
  by (intro emits_with_prune [OF c] emits_seq [OF c] emits_unless [OF c] emits_wrap [OF c]
      emits_invoke [OF c] emits_forEach [OF c] w)
    (simp_all add: walk_hook_def)

lemma emits_visitEnumDefinition:
  assumes c: "closed A R" and w: "\<And>k n. walk_hook k \<Longrightarrow> A k n"
  shows "emits (visitEnumDefinition h v) R"
  unfolding visitEnumDefinition_def
  by (intro emits_seq [OF c] emits_invoke [OF c] w) (simp_all add: walk_hook_def)

lemma emits_visitUnionDefinition:
  assumes c: "closed A R" and w: "\<And>k n. walk_hook k \<Longrightarrow> A k n"
  shows "emits (visitUnionDefinition h v) R"
  unfolding visitUnionDefinition_def
  by (intro emits_seq [OF c] emits_invoke [OF c] w) (simp_all add: walk_hook_def)

lemma emits_visitInputFieldDefinitionList:
  assumes c: "closed A R" and w: "\<And>k n. walk_hook k \<Longrightarrow> A k n"
  shows "emits (visitInputFieldDefinitionList h ch) R"
  unfolding visitInputFieldDefinitionList_def visitInputFieldDefinition_def
  by (intro emits_with_prune [OF c] emits_seq [OF c] emits_unless [OF c] emits_wrap [OF c]
      emits_invoke [OF c] emits_forEach [OF c] w)
    (simp_all add: walk_hook_def)

lemma emits_visitInputDefinition:
  assumes c: "closed A R" and w: "\<And>k n. walk_hook k \<Longrightarrow> A k n"
  shows "emits (visitInputDefinition h v) R"
  unfolding visitInputDefinition_def
  by (intro emits_with_prune [OF c] emits_seq [OF c] emits_unless [OF c] emits_wrap [OF c]
      emits_invoke [OF c] emits_visitInputFieldDefinitionList [OF c] w)
    (simp_all add: walk_hook_def)

lemma emits_visitDefinition:
  assumes c: "closed A R" and w: "\<And>k n. walk_hook k \<Longrightarrow> A k n"
  shows "emits (visitDefinition h v) R"
proof -
  have op: "emits (visitOperationDefinition h d) R" for d
    by (intro emits_visitOperationDefinition [OF c] on_walk_hooks [of A, OF w] w)
      (simp_all add: walk_hook_def)
  show ?thesis
    unfolding visitDefinition_def
    by (cases v)
      (auto intro!: emits_with_prune [OF c] emits_seq [OF c] emits_unless [OF c]
        emits_wrap [OF c] emits_invoke [OF c] emits_ret_err [OF c] op
        emits_visitFragmentDefinition [OF c w] emits_visitObjectDefinition [OF c w]
        emits_visitInterfaceDefinition [OF c w] emits_visitEnumDefinition [OF c w]
        emits_visitUnionDefinition [OF c w] emits_visitInputDefinition [OF c w] w
        simp: walk_hook_def)
qed

lemma emits_visitDefinitionList:
  assumes c: "closed A R" and w: "\<And>k n. walk_hook k \<Longrightarrow> A k n"
  shows "emits (visitDefinitionList h ch) R"
  unfolding visitDefinitionList_def
  by (auto intro!: emits_ret_nil [OF c] emits_seq [OF c] emits_wrap [OF c]
      emits_invoke [OF c] emits_forEach [OF c] emits_visitDefinition [OF c w] w
      simp: walk_hook_def)

lemma emits_visitDocument:
  assumes c: "closed A R" and w: "\<And>k n. walk_hook k \<Longrightarrow> A k n"
  shows "emits (visitDocument h v) R"
  unfolding visitDocument_def
  by (intro emits_with_prune [OF c] emits_seq [OF c] emits_unless [OF c] emits_wrap [OF c]
      emits_invoke [OF c] emits_visitDefinitionList [OF c w] w)
    (simp_all add: walk_hook_def)

lemma emits_visitSchema:
  assumes c: "closed A R" and w: "\<And>k n. walk_hook k \<Longrightarrow> A k n"
  shows "emits (visitSchema h v) R"
  unfolding visitSchema_def
  by (intro emits_with_prune [OF c] emits_seq [OF c] emits_unless [OF c] emits_wrap [OF c]
      emits_invoke [OF c] emits_visitDefinitionList [OF c w] w)
    (simp_all add: walk_hook_def)

lemma emits_Visit:
  assumes c: "closed A R" and w: "\<And>k n. walk_hook k \<Longrightarrow> A k n"
  shows "emits (Visit h rt) R"
  by (cases rt)
    (simp_all add: emits_visitDocument [OF c w] emits_visitSchema [OF c w] emits_ret_err [OF c])

lemma emits_run:
  assumes "emits m R" "m (tr, u) = (r, (tr', u'))"
  obtains new where "tr' = tr @ new" "R new r"
  using assms unfolding emits_def by (metis Pair_inject)

lemma closed_aborts_at_fatal: "closed (\<lambda>k n. True) aborts_at_fatal"
  unfolding closed_def
proof (intro conjI allI impI)
  fix k n e msg
  have "Wrap e msg = foldl Wrap e [msg]" by simp
  then show "aborts_at_fatal [(k, n, Some e)] (Some (Wrap e msg))"
    unfolding aborts_at_fatal_def ev_result_def by (metis One_nat_def length_Cons less_Suc0 list.discI list.size(3) nth_Cons_0 option.inject snd_conv)
next
  fix n1 n2 r
  assume 1: "aborts_at_fatal n1 None" and 2: "aborts_at_fatal n2 r"
  show "aborts_at_fatal (n1 @ n2) r"
    unfolding aborts_at_fatal_def
  proof (intro allI impI)
    fix i e
    assume i: "i < length (n1 @ n2)" and e: "ev_result ((n1 @ n2) ! i) = Some e"
      and f: "isPruneError e = None"
    show "Suc i = length (n1 @ n2) \<and> (\<exists>ctx. ctx \<noteq> [] \<and> r = Some (foldl Wrap e ctx))"
    proof (cases "i < length n1")
      case True
      with 1 e f show ?thesis by (auto simp: aborts_at_fatal_def nth_append)
    next
      case False
      with i have j: "i - length n1 < length n2" by simp
      from False e have "ev_result (n2 ! (i - length n1)) = Some e"
        by (simp add: nth_append)
      with 2 j f have "Suc (i - length n1) = length n2"
        "\<exists>ctx. ctx \<noteq> [] \<and> r = Some (foldl Wrap e ctx)"
        by (auto simp: aborts_at_fatal_def)
      with False show ?thesis by simp
    qed
  qed
next
  fix n e msg
  assume a: "aborts_at_fatal n (Some e)"
  show "aborts_at_fatal n (Some (Wrap e msg))"
    unfolding aborts_at_fatal_def
  proof (intro allI impI)
    fix i e'
    assume "i < length n" "ev_result (n ! i) = Some e'" "isPruneError e' = None"
    with a obtain ctx where "Suc i = length n" "ctx \<noteq> []" "e = foldl Wrap e' ctx"
      by (auto simp: aborts_at_fatal_def)
    then have "Suc i = length n" "ctx @ [msg] \<noteq> []" "Wrap e msg = foldl Wrap e' (ctx @ [msg])"
      by simp_all
    then show "Suc i = length n \<and> (\<exists>ctx. ctx \<noteq> [] \<and> Some (Wrap e msg) = Some (foldl Wrap e' ctx))"
      by blast
  qed
qed (simp_all add: aborts_at_fatal_def ev_result_def)

lemma Cause_foldl_Wrap: "Cause (foldl Wrap e ctx) = Cause e"
  by (induction ctx arbitrary: e) simp_all

lemma closed_events: "closed A (\<lambda>new r. \<forall>e \<in> set new. A (ev_hook e) (ev_node e))"
  by (auto simp: closed_def ev_hook_def ev_node_def)

section \<open>Walks of ordered sequences\<close>





































lemma Iterator_Add: "Iterator (Add l xs) = Iterator l @ xs"
  by (simp add: Iterator_def Add_def)

lemma guarded_lists_skip_empty:
  "visitDefinitionList h [] = ret_nil"
  "visitSelectionList h [] = ret_nil"
  "visitDirectiveList h [] = ret_nil"
  "visitObjectFieldDefinitionList h [] = ret_nil"
  by (simp_all add: visitDefinitionList_def visitSelectionList.simps visitDirectiveList_def
      visitObjectFieldDefinitionList_def)

section \<open>The claims\<close>

text \<open>
  C1, as stated, at a Directive. The enter callback of the directive returns an error
  whose \<^verbatim>\<open>Prune()\<close> is true; \<^verbatim>\<open>visitDirective\<close> does not look for the signal
  (the comment on \<^verbatim>\<open>Handler.EnterDirective\<close>: "Does NOT respect the Pruner return
  value"): the walk aborts with that error, wrapped, and the registered leave callbacks
  of the directive and of the field around it are not invoked.
\<close>

theorem prune_signal_from_directive_aborts_walk:
  "Visit prune_directive_handler (RootDocument skipped_document) ([], ()) =
     (Some (foldl Wrap (PruneErr True)
        [''failed to visit directive (enter)'',
         ''failed to visit directive'',
         ''failed to visit directive list'',
         ''failed to visit selection field'',
         ''failed to visit selection'',
         ''failed to visit selection list'',
         ''failed to visit operation definition'',
         ''failed to visit document definition'',
         ''failed to visit definition list'']),
      ([(EnterDirective, NDirective skip_directive, Some (PruneErr True))], ()))"
  by (simp add: statement_defs visitor_defs prune_directive_handler_def skipped_document_def
      skipped_query_def skipped_field_def returns_err_def)

text \<open>
  C1, amended. For every node of a kind whose visitor honours pruning (Schema, Document,
  Definition, OperationDefinition, FragmentDefinition, ObjectDefinition,
  InterfaceDefinition, InputDefinition, Selection, SelectionField, InlineFragment): if
  the registered enter callback returns an error whose \<^verbatim>\<open>Prune()\<close> is true, the
  visit of the node is the enter event followed by the leave step alone. No child is
  visited, the leave callback, if registered, runs exactly once, and the visit returns
  what the leave step returns, so that nothing aborts unless the leave callback fails.
\<close>

theorem prune_skips_children_and_leaves:
  assumes "pruning_node n = Some (kE, kL, msg)"
    and "h kE = Some f" and "f n u = (Some e, u')" and "isPruneError e = Some True"
  shows "visitNode h n (tr, u) = invoke h kL n msg (tr @ [(kE, n, Some e)], u')"
  using assms
  by (cases n)
    (simp_all add: visitSchema_def visitDocument_def visitDefinition_def
      visitOperationDefinition_def visitFragmentDefinition_def visitObjectDefinition_def
      visitInterfaceDefinition_def visitInputDefinition_def visitSelection.simps
      visitSelectionField.simps visitInlineFragment.simps
      with_prune_def enter_def call_def seq_def unless_def ret_nil_def)

theorem prune_skips_children_and_leaves_witness:
  "pruning_node (NSelectionField user_field) =
     Some (EnterSelectionField, LeaveSelectionField, ''failed to visit selection field (leave)'') \<and>
   prune_field_handler EnterSelectionField = Some (returns_err (PruneErr True)) \<and>
   returns_err (PruneErr True) (NSelectionField user_field) () = (Some (PruneErr True), ()) \<and>
   isPruneError (PruneErr True) = Some True \<and>
   visitNode prune_field_handler (NSelectionField user_field) ([], ()) =
     (None,
      ([(EnterSelectionField, NSelectionField user_field, Some (PruneErr True)),
        (LeaveSelectionField, NSelectionField user_field, None)], ()))"
  using prune_skips_children_and_leaves
    [of "NSelectionField user_field" EnterSelectionField LeaveSelectionField
      "''failed to visit selection field (leave)''" prune_field_handler
      "returns_err (PruneErr True)" "()" "PruneErr True" "()" "[]"]
  by (simp add: prune_field_handler_def returns_err_def returns_nil_def invoke_def wrap_def
      call_def)

text \<open>
  C2. In a walk from the entry point, when a callback, an enter callback in particular,
  returns an error that is not a \<^verbatim>\<open>Pruner\<close>, its event is the last of the trace: no
  leave callback of that node and no callback of a child, of a sibling or of a later
  definition or selection is invoked after it. The entry point returns that error under
  at least one \<^verbatim>\<open>errors.Wrap\<close>, and \<^verbatim>\<open>errors.Cause\<close> of what is returned is the
  cause of the callback's error.
\<close>

theorem fatal_error_aborts_walk:
  assumes "Visit h rt ([], u) = (r, (tr, u'))"
    and "i < length tr" and "tr ! i = (k, n, Some e)" and "isPruneError e = None"
  shows "Suc i = length tr \<and> (\<exists>ctx. ctx \<noteq> [] \<and> r = Some (foldl Wrap e ctx)) \<and>
         map_option Cause r = Some (Cause e)"
proof -
  have "emits (Visit h rt) aborts_at_fatal"
    by (rule emits_Visit [OF closed_aborts_at_fatal]) simp
  from this assms(1) obtain new where "tr = [] @ new" "aborts_at_fatal new r"
    by (rule emits_run)
  then have "aborts_at_fatal tr r" by simp
  with assms(2-4) have *: "Suc i = length tr" "\<exists>ctx. ctx \<noteq> [] \<and> r = Some (foldl Wrap e ctx)"
    by (auto simp: aborts_at_fatal_def ev_result_def)
  then show ?thesis by (auto simp: Cause_foldl_Wrap)
qed

theorem fatal_error_aborts_walk_witness:
  "Visit fatal_handler (RootDocument user_document) ([], ()) =
     (Some (foldl Wrap (Errorf ''boom'')
        [''failed to visit selection field (enter)'',
         ''failed to visit selection field'',
         ''failed to visit selection'',
         ''failed to visit selection list'',
         ''failed to visit operation definition'',
         ''failed to visit document definition'',
         ''failed to visit definition list'']),
      ([(EnterOperationDefinition, NOperationDefinition user_query, None),
        (EnterSelectionField, NSelectionField user_field, Some (Errorf ''boom''))], ())) \<and>
   isPruneError (Errorf ''boom'') = None \<and>
   (\<exists>ctx. ctx \<noteq> [] \<and>
      fst (Visit fatal_handler (RootDocument user_document) ([], ())) =
        Some (foldl Wrap (Errorf ''boom'') ctx)) \<and>
   map_option Cause (fst (Visit fatal_handler (RootDocument user_document) ([], ()))) =
     Some (Errorf ''boom'')"
proof -
  have run: "Visit fatal_handler (RootDocument user_document) ([], ()) =
     (Some (foldl Wrap (Errorf ''boom'')
        [''failed to visit selection field (enter)'',
         ''failed to visit selection field'',
         ''failed to visit selection'',
         ''failed to visit selection list'',
         ''failed to visit operation definition'',
         ''failed to visit document definition'',
         ''failed to visit definition list'']),
      ([(EnterOperationDefinition, NOperationDefinition user_query, None),
        (EnterSelectionField, NSelectionField user_field, Some (Errorf ''boom''))], ()))"
    by (simp add: statement_defs visitor_defs fatal_handler_def user_document_def
        user_query_def user_field_def id_field_def returns_err_def returns_nil_def)
  from fatal_error_aborts_walk [OF run, of 1 EnterSelectionField "NSelectionField user_field"
      "Errorf ''boom''"]
  have "(\<exists>ctx. ctx \<noteq> [] \<and>
          Some (foldl Wrap (Errorf ''boom'')
            [''failed to visit selection field (enter)'',
             ''failed to visit selection field'',
             ''failed to visit selection'',
             ''failed to visit selection list'',
             ''failed to visit operation definition'',
             ''failed to visit document definition'',
             ''failed to visit definition list'']) = Some (foldl Wrap (Errorf ''boom'') ctx))"
    by simp
  with run show ?thesis by simp
qed

text \<open>
  C8. The visit of an operation definition, whatever its variable definitions: every
  callback invocation is the operation's own enter or leave callback on the operation,
  or a callback of the selection list on a node of the operation's selections (a
  selection, a field, a fragment spread, an inline fragment, or a directive of a field or
  of an inline fragment). Nothing is invoked on a variable definition or on a directive
  of the operation; \<^verbatim>\<open>Handler\<close> has no callback for variable definitions.
\<close>

theorem operation_descends_into_selections_only:
  assumes "visitOperationDefinition h v (tr, u) = (r, (tr', u'))"
  shows "\<exists>new. tr' = tr @ new \<and> (\<forall>e \<in> set new. operation_point v (ev_hook e) (ev_node e))"
proof -
  have "emits (visitOperationDefinition h v)
          (\<lambda>new r. \<forall>e \<in> set new. operation_point v (ev_hook e) (ev_node e))"
    by (rule emits_visitOperationDefinition [OF closed_events])
      (simp_all add: operation_point_def on_def)
  from this assms show ?thesis by (rule emits_run) blast
qed

theorem operation_descends_into_selections_only_witness:
  "visitOperationDefinition every_handler variable_query ([], ()) =
     (None,
      ([(EnterOperationDefinition, NOperationDefinition variable_query, None),
        (EnterSelectionList, NoNode, None),
        (EnterSelection, NSelection (SelField id_field), None),
        (EnterSelectionField, NSelectionField id_field, None),
        (LeaveSelectionField, NSelectionField id_field, None),
        (LeaveSelection, NSelection (SelField id_field), None),
        (LeaveSelectionList, NoNode, None),
        (LeaveOperationDefinition, NOperationDefinition variable_query, None)], ())) \<and>
   (\<exists>new. fst (snd (visitOperationDefinition every_handler variable_query ([], ()))) = [] @ new \<and>
      (\<forall>e \<in> set new. operation_point variable_query (ev_hook e) (ev_node e)))"
proof -
  have run: "visitOperationDefinition every_handler variable_query ([], ()) =
     (None,
      ([(EnterOperationDefinition, NOperationDefinition variable_query, None),
        (EnterSelectionList, NoNode, None),
        (EnterSelection, NSelection (SelField id_field), None),
        (EnterSelectionField, NSelectionField id_field, None),
        (LeaveSelectionField, NSelectionField id_field, None),
        (LeaveSelection, NSelection (SelField id_field), None),
        (LeaveSelectionList, NoNode, None),
        (LeaveOperationDefinition, NOperationDefinition variable_query, None)], ()))"
    by (simp add: statement_defs visitor_defs every_handler_def variable_query_def
        id_field_def returns_nil_def)
  from operation_descends_into_selections_only [OF run] run show ?thesis
    by simp
qed

text \<open>
  C10. In a walk from the entry point, of a Schema or of anything else, completed or
  failed, neither \<^verbatim>\<open>EnterSchemaQuery\<close> nor \<^verbatim>\<open>LeaveSchemaQuery\<close> is invoked:
  \<^verbatim>\<open>visitSchema\<close> sends the query root down the definition list, and nothing that
  the entry point reaches calls \<^verbatim>\<open>visitSchemaQuery\<close>.
\<close>

theorem schema_query_callbacks_never_fire:
  assumes "Visit h rt ([], u) = (r, (tr, u'))"
  shows "\<forall>e \<in> set tr. ev_hook e \<noteq> EnterSchemaQuery \<and> ev_hook e \<noteq> LeaveSchemaQuery"
proof -
  have "emits (Visit h rt) (\<lambda>new r. \<forall>e \<in> set new. walk_hook (ev_hook e))"
    by (rule emits_Visit [OF closed_events [of "\<lambda>k n. walk_hook k"]])
  from this assms obtain new where "tr = [] @ new" "\<forall>e \<in> set new. walk_hook (ev_hook e)"
    by (rule emits_run)
  then show ?thesis by (simp add: walk_hook_def)
qed

theorem schema_query_callbacks_never_fire_witness:
  "fst (Visit every_handler (RootSchema user_schema) ([], ())) = None \<and>
   map ev_hook (fst (snd (Visit every_handler (RootSchema user_schema) ([], ())))) =
     [EnterSchema, EnterDefinitionList,
      EnterDefinition, EnterObjectDefinition, EnterObjectFieldDefinitionList,
      EnterObjectFieldDefinition, LeaveObjectFieldDefinition, LeaveObjectFieldDefinitionList,
      LeaveObjectDefinition, LeaveDefinition,
      EnterDefinition, EnterObjectDefinition, LeaveObjectDefinition, LeaveDefinition,
      LeaveDefinitionList, LeaveSchema] \<and>
   EnterSchemaQuery \<notin>
     ev_hook ` set (fst (snd (Visit every_handler (RootSchema user_schema) ([], ())))) \<and>
   LeaveSchemaQuery \<notin>
     ev_hook ` set (fst (snd (Visit every_handler (RootSchema user_schema) ([], ()))))"
proof -
  have run: "map ev_hook (fst (snd (Visit every_handler (RootSchema user_schema) ([], ())))) =
     [EnterSchema, EnterDefinitionList,
      EnterDefinition, EnterObjectDefinition, EnterObjectFieldDefinitionList,
      EnterObjectFieldDefinition, LeaveObjectFieldDefinition, LeaveObjectFieldDefinitionList,
      LeaveObjectDefinition, LeaveDefinition,
      EnterDefinition, EnterObjectDefinition, LeaveObjectDefinition, LeaveDefinition,
      LeaveDefinitionList, LeaveSchema]"
    "fst (Visit every_handler (RootSchema user_schema) ([], ())) = None"
    by (simp_all add: statement_defs visitor_defs every_handler_def user_schema_def
        user_type_def query_type_def returns_nil_def ev_hook_def)
  have "Visit every_handler (RootSchema user_schema) ([], ()) =
          (fst (Visit every_handler (RootSchema user_schema) ([], ())),
           (fst (snd (Visit every_handler (RootSchema user_schema) ([], ()))),
            snd (snd (Visit every_handler (RootSchema user_schema) ([], ())))))"
    by (simp add: prod_eq_iff)
  from schema_query_callbacks_never_fire [OF this] run show ?thesis
    by auto
qed





text \<open>
  C7. A root value that is neither a Document nor a Schema: the entry point returns the
  invalid-input-type error at once, and no callback is invoked (the trace and the
  callbacks' state are as they were).
\<close>

theorem Visit_invalid_input_type:
  "Visit h (RootOther t) (tr, u) =
     (Some (Errorf (''invalid input type for visit: '' @ t)), (tr, u))"
  by (simp add: ret_err_def)

text \<open>
  C5. The document with one query operation, one field \<open>user\<close> and in it one field
  \<open>id\<close>, walked with the enter and leave callbacks of OperationDefinition,
  SelectionList, Selection and SelectionField registered as loggers: the walk succeeds
  and the log is exactly the fourteen entries of \<open>user_log\<close>.
\<close>

theorem user_query_log:
  "fst (Visit log_handler (RootDocument user_document) ([], [])) = None \<and>
   snd (snd (Visit log_handler (RootDocument user_document) ([], []))) = user_log"
  by (simp add: statement_defs visitor_defs log_handler_def user_document_def user_query_def
      user_field_def id_field_def logger_def user_log_def OperationTypeQuery_def)

text \<open>
  C3, evaluated where the code departs from it. An InputDefinition with no fields:
  \<^verbatim>\<open>visitInputFieldDefinitionList\<close> does not test the length of the sequence, and the
  list-level enter callback fires for the empty sequence (and a second time where the
  leave callback was due).
\<close>

theorem empty_input_field_list_fires_enter:
  "Visit input_list_handler (RootDocument empty_input_document) ([], ()) =
     (None,
      ([(EnterInputFieldDefinitionList, NoNode, None),
        (EnterInputFieldDefinitionList, NoNode, None)], ()))"
  by (simp add: statement_defs visitor_defs input_list_handler_def empty_input_document_def
      returns_nil_def)

text \<open>
  C4, evaluated where the code departs from it. An InputDefinition with one field, both
  list-level callbacks registered: the enter callback is invoked twice, before and after
  the element, and \<^verbatim>\<open>LeaveInputFieldDefinitionList\<close> is not invoked.
\<close>

theorem input_field_list_enter_twice_no_leave:
  "Visit input_list_handler (RootDocument one_input_document) ([], ()) =
     (None,
      ([(EnterInputFieldDefinitionList, NoNode, None),
        (EnterInputFieldDefinition, NInputFieldDefinition limit_field, None),
        (EnterInputFieldDefinitionList, NoNode, None)], ()))"
  by (simp add: statement_defs visitor_defs input_list_handler_def one_input_document_def
      returns_nil_def)

end
